theory Spec2Isabelle
  imports Main
begin

section \<open>JavaScript values\<close>

text \<open>
  The values that flow through the configuration object, the Redis options and the
  health-check body. An object is an association list in insertion order, which is the
  order in which JavaScript enumerates string keys. Numbers are the integers that occur
  here (ports, timeouts, database indices) and \<open>NaN\<close>; a JavaScript number is a double,
  which represents every integer of magnitude up to \<open>2 ^ 53\<close> exactly, so \<open>JNum\<close>
  agrees with the program on that range.
\<close>

datatype jsval =
    JUndefined
  | JNull
  | JBool bool
  | JNum int
  | JNaN
  | JStr string
  | JArr "jsval list"
  | JObj "(string \<times> jsval) list"

text \<open>ToBoolean: the six falsy primitives, everything else is truthy.\<close>

fun truthy :: "jsval \<Rightarrow> bool" where
  "truthy JUndefined = False"
| "truthy JNull = False"
| "truthy (JBool b) = b"
| "truthy (JNum n) = (n \<noteq> 0)"
| "truthy JNaN = False"
| "truthy (JStr s) = (s \<noteq> [])"
| "truthy (JArr xs) = True"
| "truthy (JObj kvs) = True"

text \<open>
  \<open>o.k\<close> on a value other than \<open>undefined\<close> and \<open>null\<close>: the bound value, or
  \<open>undefined\<close> when the key is missing. The primitives have none of the properties
  read in this program (\<open>message\<close>, \<open>info\<close>, \<open>redis\<close>, \<open>status\<close>, \<open>error\<close>).
\<close>

fun js_get :: "jsval \<Rightarrow> string \<Rightarrow> jsval" where
  "js_get (JObj kvs) k = (case map_of kvs k of None \<Rightarrow> JUndefined | Some v \<Rightarrow> v)"
| "js_get v k = JUndefined"

text \<open>\<open>k in o\<close> for the own keys of an object literal.\<close>

fun has_key :: "jsval \<Rightarrow> string \<Rightarrow> bool" where
  "has_key (JObj kvs) k = (k \<in> set (map fst kvs))"
| "has_key v k = False"

text \<open>
  \<open>...(c && {k1: v1, ...})\<close> inside an object literal: when \<open>c\<close> is truthy the operand
  is the literal and its properties are copied; when \<open>c\<close> is falsy the operand is \<open>c\<close>
  itself, a falsy primitive, which has no own enumerable property, so nothing is copied.
\<close>

definition spread_and :: "jsval \<Rightarrow> (string \<times> jsval) list \<Rightarrow> (string \<times> jsval) list" where
  "spread_and c kvs = (if truthy c then kvs else [])"

text \<open>An \<open>Error\<close> object, as far as this program reads it: its \<open>message\<close>.\<close>

definition js_Error :: "string \<Rightarrow> jsval" where
  "js_Error m = JObj [(''message'', JStr m)]"

section \<open>Sentinel DSN parsing\<close>

text \<open>
  \<open>String.prototype.split\<close> with a separator that matches exactly one character, as
  \<open>/,|;/\<close> and \<open>':'\<close> do: the pieces between the separators, in order, empty pieces
  included. The result is never empty (\<open>''.split(':')\<close> is \<open>['']\<close>), so the second
  branch of the inner case is not reached.
\<close>

fun js_split :: "(char \<Rightarrow> bool) \<Rightarrow> string \<Rightarrow> string list" where
  "js_split sep [] = [[]]"
| "js_split sep (c # cs) =
     (if sep c then [] # js_split sep cs
      else (case js_split sep cs of
              w # ws \<Rightarrow> (c # w) # ws
            | [] \<Rightarrow> [[c]]))"

text \<open>
  \<open>Number.parseInt(string)\<close> with no radix: leading white space is skipped, one sign
  is read, a \<open>0x\<close> or \<open>0X\<close> prefix selects radix 16 and is skipped, and the longest
  prefix of digits of the radix is the value; \<open>NaN\<close> when that prefix is empty.
  Strings are ASCII here, so the white space is the six ASCII white-space characters.
\<close>

definition is_js_space :: "char \<Rightarrow> bool" where
  "is_js_space c = (c \<in> set [CHR 0x09, CHR 0x0A, CHR 0x0B, CHR 0x0C, CHR 0x0D, CHR 0x20])"

definition digit_value :: "char \<Rightarrow> nat option" where
  "digit_value c =
     (let n = (of_char c :: nat) in
      if 48 \<le> n \<and> n \<le> 57 then Some (n - 48)
      else if 97 \<le> n \<and> n \<le> 122 then Some (n - 87)
      else if 65 \<le> n \<and> n \<le> 90 then Some (n - 55)
      else None)"

definition radix_digit :: "nat \<Rightarrow> char \<Rightarrow> bool" where
  "radix_digit R c = (case digit_value c of Some d \<Rightarrow> d < R | None \<Rightarrow> False)"

definition digits_value :: "nat \<Rightarrow> string \<Rightarrow> nat" where
  "digits_value R ds =
     foldl (\<lambda>acc c. acc * R + (case digit_value c of Some d \<Rightarrow> d | None \<Rightarrow> 0)) 0 ds"

definition strip_sign :: "string \<Rightarrow> int \<times> string" where
  "strip_sign s =
     (case s of
        c # r \<Rightarrow> if c = CHR ''-'' then (- 1, r) else if c = CHR ''+'' then (1, r) else (1, s)
      | [] \<Rightarrow> (1, s))"

definition strip_radix :: "string \<Rightarrow> nat \<times> string" where
  "strip_radix s =
     (case s of
        c # x # r \<Rightarrow>
          if c = CHR ''0'' \<and> (x = CHR ''x'' \<or> x = CHR ''X'') then (16, r) else (10, s)
      | _ \<Rightarrow> (10, s))"

definition parseInt :: "string \<Rightarrow> jsval" where
  "parseInt s =
     (case strip_sign (dropWhile is_js_space s) of (sign, s2) \<Rightarrow>
      case strip_radix s2 of (R, s3) \<Rightarrow>
        let ds = takeWhile (radix_digit R) s3
        in if ds = [] then JNaN else JNum (sign * int (digits_value R ds)))"

text \<open>
  One element of \<open>hostChain.map(...)\<close>: \<open>host.split(':')[0]\<close> and
  \<open>Number.parseInt(host.split(':')[1])\<close>. When the entry has no \<open>':'\<close> the index 1 is
  out of range, the argument is \<open>undefined\<close>, and \<open>parseInt\<close> parses its string form.
\<close>

definition sentinel_of_entry :: "string \<Rightarrow> jsval" where
  "sentinel_of_entry entry =
     (let parts = js_split (\<lambda>c. c = CHR '':'') entry in
      JObj
        [(''host'', (case parts of h # _ \<Rightarrow> JStr h | [] \<Rightarrow> JUndefined)),
         (''port'', (case parts of _ # p # _ \<Rightarrow> parseInt p | _ \<Rightarrow> parseInt ''undefined''))])"

datatype js_error = TypeError

text \<open>
  \<open>parseDSNToSentinels\<close>. Only a string has the \<open>split\<close> method this function calls;
  on any other value the call throws a \<open>TypeError\<close>.
\<close>

definition is_dsn_separator :: "char \<Rightarrow> bool" where
  "is_dsn_separator c = (c = CHR '','' \<or> c = CHR '';'')"

fun parseDSNToSentinels :: "jsval \<Rightarrow> js_error + jsval" where
  "parseDSNToSentinels (JStr dsn) =
     Inr (JArr (map sentinel_of_entry (js_split is_dsn_separator dsn)))"
| "parseDSNToSentinels v = Inl TypeError"

text \<open>
  Well-formed sentinel DSN strings: a first \<open>host:port\<close> entry followed by any number
  of entries, each introduced by \<open>','\<close> or \<open>';'\<close>. A host is any text free of the three
  delimiters; a port is a non-empty string of at most 15 decimal digits (so that its
  value is below \<open>2 ^ 53\<close>). \<open>decimal_value\<close> is the integer such a string denotes.
\<close>

definition is_decimal_digit :: "char \<Rightarrow> bool" where
  "is_decimal_digit c = (48 \<le> (of_char c :: nat) \<and> (of_char c :: nat) \<le> 57)"

definition decimal_value :: "string \<Rightarrow> nat" where
  "decimal_value p = foldl (\<lambda>acc c. 10 * acc + ((of_char c :: nat) - 48)) 0 p"

definition host_text :: "string \<Rightarrow> bool" where
  "host_text h = list_all (\<lambda>c. c \<noteq> CHR '':'' \<and> c \<noteq> CHR '','' \<and> c \<noteq> CHR '';'') h"

definition port_text :: "string \<Rightarrow> bool" where
  "port_text p = (p \<noteq> [] \<and> length p \<le> 15 \<and> list_all is_decimal_digit p)"

fun dsn_text :: "string \<times> string \<Rightarrow> (char \<times> string \<times> string) list \<Rightarrow> string" where
  "dsn_text (h, p) [] = h @ '':'' @ p"
| "dsn_text (h, p) ((sep, h', p') # rest) = h @ '':'' @ p @ sep # dsn_text (h', p') rest"

text \<open>The \<open>{host, port}\<close> record expected for one entry.\<close>

definition sentinel :: "string \<times> string \<Rightarrow> jsval" where
  "sentinel hp =
     JObj [(''host'', JStr (fst hp)), (''port'', JNum (int (decimal_value (snd hp))))]"

section \<open>The health-check handler\<close>

text \<open>
  \<open>app.use('/healthcheck', async (req, res) => ...)\<close>. The awaited \<open>client.ping()\<close>
  either resolves to a value or rejects with a value; the handler answers with
  \<open>res.status(200).json(body)\<close> and, in the catch branch, writes the caught value to
  \<open>console.error\<close>.
\<close>

datatype ping_outcome = Resolved jsval | Rejected jsval

record hc_response =
  http_status :: nat
  json_body :: jsval
  console_error :: "jsval list"

text \<open>The three locals \<open>status\<close>, \<open>redisStatus\<close>, \<open>redisError\<close> after the try/catch.\<close>

fun hc_locals :: "ping_outcome \<Rightarrow> string \<times> jsval \<times> jsval" where
  "hc_locals (Resolved v) =
     (if v = JStr ''PONG'' then (''ok'', JStr ''up'', JUndefined)
      else (''error'', JStr ''down'', JUndefined))"
| "hc_locals (Rejected err) = (''error'', JUndefined, err)"

fun hc_logged :: "ping_outcome \<Rightarrow> jsval list" where
  "hc_logged (Resolved v) = []"
| "hc_logged (Rejected err) = [err]"

definition healthcheck :: "ping_outcome \<Rightarrow> hc_response" where
  "healthcheck ping =
     (case hc_locals ping of (status, redisStatus, redisError) \<Rightarrow>
        \<lparr> http_status = 200,
          json_body = JObj
            [(''status'', JStr status),
             (''info'', JObj
                [(''redis'', JObj
                   ([(''status'', redisStatus),
                     (''description'', JStr ''Based on the Redis PING/PONG system'')]
                    @ spread_and redisError [(''error'', js_get redisError ''message'')]))])],
          console_error = hc_logged ping \<rparr>)"

text \<open>\<open>body.info.redis\<close> of a response.\<close>

definition redis_info :: "hc_response \<Rightarrow> jsval" where
  "redis_info r = js_get (js_get (json_body r) ''info'') ''redis''"

section \<open>The Redis options builder\<close>

text \<open>
  The configuration object is only ever read, one property at a time
  (\<open>config.REDIS_HOST\<close>, ...): it is the function from a property name to the value
  read, \<open>undefined\<close> for a property it does not have. \<open>config_of\<close> builds one from
  an object literal.
\<close>

type_synonym config = "string \<Rightarrow> jsval"

definition config_of :: "(string \<times> jsval) list \<Rightarrow> config" where
  "config_of kvs = js_get (JObj kvs)"

text \<open>\<open>a || b\<close> and \<open>!a\<close>.\<close>

definition js_or :: "jsval \<Rightarrow> jsval \<Rightarrow> jsval" where
  "js_or a b = (if truthy a then a else b)"

definition js_not :: "jsval \<Rightarrow> jsval" where
  "js_not a = JBool (\<not> truthy a)"

text \<open>
  The literal spread under \<open>config.SENTINEL_HOSTS && {...}\<close>, given the value of
  \<open>parseDSNToSentinels(config.SENTINEL_HOSTS)\<close>.
\<close>

definition sentinel_options :: "config \<Rightarrow> jsval \<Rightarrow> (string \<times> jsval) list" where
  "sentinel_options cfg sentinels =
     [(''sentinels'', sentinels),
      (''name'', cfg ''SENTINEL_NAME''),
      (''role'', cfg ''SENTINEL_ROLE''),
      (''maxRetriesPerRequest'', js_or (cfg ''MAX_RETRIES_PER_REQUEST'') JNull)]
     @ spread_and (cfg ''SENTINEL_USERNAME'')
         [(''sentinelUsername'', cfg ''SENTINEL_USERNAME'')]
     @ spread_and (cfg ''SENTINEL_PASSWORD'')
         [(''sentinelPassword'', cfg ''SENTINEL_PASSWORD'')]
     @ spread_and (cfg ''SENTINEL_COMMAND_TIMEOUT'')
         [(''sentinelCommandTimeout'', cfg ''SENTINEL_COMMAND_TIMEOUT'')]
     @ [(''enableTLSForSentinelMode'', cfg ''SENTINEL_TLS_ENABLED''),
        (''updateSentinels'', cfg ''SENTINEL_UPDATE''),
        (''sentinelMaxConnections'', cfg ''SENTINEL_MAX_CONNECTIONS''),
        (''failoverDetector'', cfg ''SENTINEL_FAILOVER_DETECTOR'')]"

text \<open>
  The properties of \<open>redisConfig.redis\<close>, in source order. No key is written twice on
  any path, so the literal's properties are the concatenation of its parts.
\<close>

definition redis_properties :: "config \<Rightarrow> jsval \<Rightarrow> (string \<times> jsval) list" where
  "redis_properties cfg sentinels =
     spread_and (cfg ''SENTINEL_HOSTS'') (sentinel_options cfg sentinels)
     @ spread_and (js_not (cfg ''SENTINEL_HOSTS''))
         [(''port'', cfg ''REDIS_PORT''),
          (''host'', cfg ''REDIS_HOST''),
          (''family'', cfg ''REDIS_FAMILY'')]
     @ [(''db'', cfg ''REDIS_DB'')]
     @ spread_and (cfg ''REDIS_USER'') [(''username'', cfg ''REDIS_USER'')]
     @ spread_and (cfg ''REDIS_PASSWORD'') [(''password'', cfg ''REDIS_PASSWORD'')]
     @ [(''tls'', JBool (cfg ''REDIS_USE_TLS'' = JStr ''true''))]
     @ spread_and (cfg ''REDIS_COMMAND_TIMEOUT'')
         [(''commandTimeout'', cfg ''REDIS_COMMAND_TIMEOUT'')]
     @ spread_and (cfg ''REDIS_SOCKET_TIMEOUT'')
         [(''socketTimeout'', cfg ''REDIS_SOCKET_TIMEOUT'')]
     @ spread_and (cfg ''REDIS_CONNECT_TIMEOUT'')
         [(''connectTimeout'', cfg ''REDIS_CONNECT_TIMEOUT'')]
     @ [(''keepAlive'', cfg ''REDIS_KEEP_ALIVE''),
        (''noDelay'', cfg ''REDIS_NO_DELAY'')]
     @ spread_and (cfg ''REDIS_CONNECTION_NAME'')
         [(''connectionName'', cfg ''REDIS_CONNECTION_NAME'')]
     @ [(''autoResubscribe'', cfg ''REDIS_AUTO_RESUBSCRIBE''),
        (''autoResendUnfulfilledCommands'', cfg ''REDIS_AUTO_RESEND_UNFULFILLED''),
        (''enableOfflineQueue'', cfg ''REDIS_ENABLE_OFFLINE_QUEUE''),
        (''enableReadyCheck'', cfg ''REDIS_ENABLE_READY_CHECK'')]"

text \<open>
  \<open>redisConfig.redis\<close>. \<open>parseDSNToSentinels\<close> is called only when
  \<open>config.SENTINEL_HOSTS\<close> is truthy (the right operand of \<open>&&\<close>); when it throws,
  evaluating the module throws.
\<close>

definition redis_options :: "config \<Rightarrow> js_error + jsval" where
  "redis_options cfg =
     (if truthy (cfg ''SENTINEL_HOSTS'') then
        (case parseDSNToSentinels (cfg ''SENTINEL_HOSTS'') of
           Inl e \<Rightarrow> Inl e
         | Inr sentinels \<Rightarrow> Inr (JObj (redis_properties cfg sentinels)))
      else Inr (JObj (redis_properties cfg JUndefined)))"

definition redisConfig :: "config \<Rightarrow> js_error + jsval" where
  "redisConfig cfg =
     (case redis_options cfg of
        Inl e \<Rightarrow> Inl e
      | Inr opts \<Rightarrow> Inr (JObj [(''redis'', opts)]))"

text \<open>The keys written only by the sentinel branch of the builder.\<close>

definition sentinel_topology_keys :: "string list" where
  "sentinel_topology_keys =
     [''sentinels'', ''name'', ''role'', ''maxRetriesPerRequest'', ''sentinelUsername'',
      ''sentinelPassword'', ''sentinelCommandTimeout'', ''enableTLSForSentinelMode'',
      ''updateSentinels'', ''sentinelMaxConnections'', ''failoverDetector'']"

text \<open>The configurations of the repository's Redis client tests.\<close>

definition default_test_config :: config where
  "default_test_config = config_of
     [(''REDIS_PORT'', JNum 6379),
      (''REDIS_HOST'', JStr ''localhost''),
      (''REDIS_DB'', JStr ''0''),
      (''REDIS_USER'', JStr ''testuser''),
      (''REDIS_PASSWORD'', JStr ''testpassword''),
      (''REDIS_USE_TLS'', JStr ''false''),
      (''REDIS_FAMILY'', JNum 4),
      (''REDIS_KEEP_ALIVE'', JNum 5000),
      (''REDIS_NO_DELAY'', JBool True),
      (''REDIS_ENABLE_OFFLINE_QUEUE'', JBool True),
      (''REDIS_ENABLE_READY_CHECK'', JBool True)]"

definition sentinel_test_config :: config where
  "sentinel_test_config = config_of
     [(''SENTINEL_HOSTS'', JStr ''host1:26379,host2:26379''),
      (''SENTINEL_NAME'', JStr ''mymaster''),
      (''SENTINEL_ROLE'', JStr ''master'')]"

text \<open>
  The optional fields of the options record, each with the configuration value it is
  copied from: those of every topology, and those written under the sentinel branch.
\<close>

definition optional_fields :: "(string \<times> string) list" where
  "optional_fields =
     [(''username'', ''REDIS_USER''),
      (''password'', ''REDIS_PASSWORD''),
      (''commandTimeout'', ''REDIS_COMMAND_TIMEOUT''),
      (''socketTimeout'', ''REDIS_SOCKET_TIMEOUT''),
      (''connectTimeout'', ''REDIS_CONNECT_TIMEOUT''),
      (''connectionName'', ''REDIS_CONNECTION_NAME'')]"

definition sentinel_optional_fields :: "(string \<times> string) list" where
  "sentinel_optional_fields =
     [(''sentinelUsername'', ''SENTINEL_USERNAME''),
      (''sentinelPassword'', ''SENTINEL_PASSWORD''),
      (''sentinelCommandTimeout'', ''SENTINEL_COMMAND_TIMEOUT'')]"

text \<open>A configuration that names a sentinel user but no sentinel hosts.\<close>

definition sentinel_user_only_config :: config where
  "sentinel_user_only_config = config_of [(''SENTINEL_USERNAME'', JStr ''sentinel-user'')]"

section \<open>Route wiring\<close>

text \<open>
  The mounting of the dashboard in the HTTP server:
  \<open>if (config.AUTH_ENABLED) { app.use(config.LOGIN_PAGE, authRouter);
  app.use(config.HOME_PAGE, ensureLoggedIn(config.LOGIN_PAGE), router); }
  else { app.use(config.HOME_PAGE, router); }\<close>.
  The result lists the \<open>app.use\<close> calls in order: the mount path and the handlers.
\<close>

datatype handler = AuthRouter | EnsureLoggedIn jsval | BullRouter

definition route_wiring :: "config \<Rightarrow> (jsval \<times> handler list) list" where
  "route_wiring cfg =
     (if truthy (cfg ''AUTH_ENABLED'') then
        [(cfg ''LOGIN_PAGE'', [AuthRouter]),
         (cfg ''HOME_PAGE'', [EnsureLoggedIn (cfg ''LOGIN_PAGE''), BullRouter])]
      else [(cfg ''HOME_PAGE'', [BullRouter])])"

section \<open>The configuration loader\<close>

text \<open>
  The process environment: a variable is unset or holds a string. A variable is
  \<^emph>\<open>set\<close> when it holds a non-empty string, the presence check used throughout the
  program.
\<close>

type_synonym env = "string \<Rightarrow> string option"

definition env_set :: "string option \<Rightarrow> bool" where
  "env_set v = (case v of None \<Rightarrow> False | Some s \<Rightarrow> s \<noteq> [])"

text \<open>
  Modelled from the spec: the configuration loader (\<open>config.js\<close>) is not among the
  sources; only its tests are. The spec derives \<open>AUTH_ENABLED\<close> as true if and only if
  both the login and the password are set.
\<close>

definition AUTH_ENABLED :: "env \<Rightarrow> bool" where
  "AUTH_ENABLED e = (env_set (e ''USER_LOGIN'') \<and> env_set (e ''USER_PASSWORD''))"

text \<open>
  Modelled from the spec: the path normalisation of the configuration loader
  (\<open>config.js\<close>), which is not among the sources. The spec has the trailing slashes of
  \<open>PROXY_PATH\<close> normalised away; the loader's tests expect the exported \<open>PROXY_PATH\<close>
  to be \<open>''\<close> when the variable is unset or empty and \<open>'/custom-path'\<close> for
  \<open>'/custom-path/'\<close>.
\<close>

definition strip_trailing_slashes :: "string \<Rightarrow> string" where
  "strip_trailing_slashes s = rev (dropWhile (\<lambda>c. c = CHR ''/'') (rev s))"

definition PROXY_PATH :: "env \<Rightarrow> string" where
  "PROXY_PATH e =
     strip_trailing_slashes (case e ''PROXY_PATH'' of None \<Rightarrow> [] | Some p \<Rightarrow> p)"

text \<open>
  Modelled from the spec: the derived pages of the configuration loader (\<open>config.js\<close>),
  which is not among the sources. \<open>HOME_PAGE\<close> and \<open>LOGIN_PAGE\<close> are prefixed by the
  normalised \<open>PROXY_PATH\<close> when it is set; otherwise they are \<open>'/'\<close> and \<open>'/login'\<close>.
\<close>

definition HOME_PAGE :: "env \<Rightarrow> string" where
  "HOME_PAGE e = (if env_set (e ''PROXY_PATH'') then PROXY_PATH e else ''/'')"

definition LOGIN_PAGE :: "env \<Rightarrow> string" where
  "LOGIN_PAGE e =
     (if env_set (e ''PROXY_PATH'') then PROXY_PATH e @ ''/login'' else ''/login'')"

text \<open>
  Modelled from the spec: the part of the configuration object, built by the loader
  (\<open>config.js\<close>, not among the sources), that the route wiring and the login strategy
  read: the credentials as given in the environment and the three derived values.
\<close>

definition env_value :: "string option \<Rightarrow> jsval" where
  "env_value v = (case v of None \<Rightarrow> JUndefined | Some s \<Rightarrow> JStr s)"

definition load_config :: "env \<Rightarrow> config" where
  "load_config e = config_of
     [(''USER_LOGIN'', env_value (e ''USER_LOGIN'')),
      (''USER_PASSWORD'', env_value (e ''USER_PASSWORD'')),
      (''PROXY_PATH'', JStr (PROXY_PATH e)),
      (''AUTH_ENABLED'', JBool (AUTH_ENABLED e)),
      (''HOME_PAGE'', JStr (HOME_PAGE e)),
      (''LOGIN_PAGE'', JStr (LOGIN_PAGE e))]"

text \<open>Environments of the loader's tests.\<close>

definition env_of :: "(string \<times> string) list \<Rightarrow> env" where
  "env_of kvs = map_of kvs"

section \<open>Per-queue client options\<close>

text \<open>
  Modelled from the spec: the queue set-up (\<open>bull.js\<close>) is not among the sources; only
  its tests are. Each queue constructor receives the queue name and an options object
  that holds the Redis options under \<open>connection\<close> (BullMQ) or \<open>redis\<close> (Bull), and a
  \<open>prefix\<close> key if and only if the configured queue prefix is a non-empty string.
\<close>

datatype bull_version = BULL | BULLMQ

fun connection_key :: "bull_version \<Rightarrow> string" where
  "connection_key BULLMQ = ''connection''"
| "connection_key BULL = ''redis''"

fun nonempty_string :: "jsval \<Rightarrow> bool" where
  "nonempty_string (JStr s) = (s \<noteq> [])"
| "nonempty_string v = False"

definition queue_options :: "bull_version \<Rightarrow> jsval \<Rightarrow> jsval \<Rightarrow> jsval" where
  "queue_options ver prefix redis =
     JObj ([(connection_key ver, redis)]
           @ (if nonempty_string prefix then [(''prefix'', prefix)] else []))"

section \<open>Queue discovery\<close>

text \<open>
  Modelled from the spec: queue discovery (\<open>bullMain\<close> of \<open>bull.js\<close>) is not among the
  sources; only its tests are. The spec has it enumerate the Redis keys matching the
  queue key pattern, extract the unique queue names, construct one queue client per
  name, each construction retried with backoff up to a maximum number of attempts, log
  and skip a queue whose construction keeps failing, and, when no queue is discovered,
  log an error and carry on with an empty queue set. The spec gives the key shape by
  example only (\<open>bull:queue1:jobs\<close> names \<open>queue1\<close>): the name is taken to be the second
  \<open>':'\<close>-separated field of the key.
\<close>

definition queue_name_of_key :: "string \<Rightarrow> string" where
  "queue_name_of_key key =
     (case js_split (\<lambda>c. c = CHR '':'') key of _ # name # _ \<Rightarrow> name | _ \<Rightarrow> key)"

text \<open>The distinct elements, in order of first occurrence.\<close>

definition unique_names :: "string list \<Rightarrow> string list" where
  "unique_names xs = rev (remdups (rev xs))"

datatype discovery_error = NoQueueFound | ConstructionFailed string

text \<open>
  One construction under backoff: \<open>attempt name i\<close> tells whether the \<open>i\<close>-th attempt
  to construct the client of queue \<open>name\<close> succeeds; at most \<open>nb_attempts\<close> are made.
\<close>

definition construct_with_backoff ::
    "(string \<Rightarrow> nat \<Rightarrow> bool) \<Rightarrow> nat \<Rightarrow> string \<Rightarrow> discovery_error + string" where
  "construct_with_backoff attempt nb_attempts name =
     (case find (attempt name) [0..<nb_attempts] of
        Some i \<Rightarrow> Inr name
      | None \<Rightarrow> Inl (ConstructionFailed name))"

record discovery =
  queues :: "string list"
  logged_errors :: "discovery_error list"

fun construct_all ::
    "(string \<Rightarrow> nat \<Rightarrow> bool) \<Rightarrow> nat \<Rightarrow> string list \<Rightarrow> discovery" where
  "construct_all attempt n [] = \<lparr> queues = [], logged_errors = [] \<rparr>"
| "construct_all attempt n (name # names) =
     (let rest = construct_all attempt n names in
      case construct_with_backoff attempt n name of
        Inr q \<Rightarrow> rest \<lparr> queues := q # queues rest \<rparr>
      | Inl err \<Rightarrow> rest \<lparr> logged_errors := err # logged_errors rest \<rparr>)"

text \<open>
  Modelled from the spec: \<open>bullMain\<close> of \<open>bull.js\<close>, which is not among the sources.
  Its result is the set of queue clients and the errors written to the log; it has no
  exceptional result, as the spec has every discovery failure logged, not thrown.
\<close>

definition bullMain :: "(string \<Rightarrow> nat \<Rightarrow> bool) \<Rightarrow> nat \<Rightarrow> string list \<Rightarrow> discovery" where
  "bullMain attempt nb_attempts keys =
     (let d = construct_all attempt nb_attempts (unique_names (map queue_name_of_key keys))
      in if queues d = [] then d \<lparr> logged_errors := logged_errors d @ [NoQueueFound] \<rparr>
         else d)"

text \<open>The constructors of the discovery tests are mocks: no attempt fails.\<close>

definition always_succeeds :: "string \<Rightarrow> nat \<Rightarrow> bool" where
  "always_succeeds name i = True"

section \<open>The login strategy\<close>

text \<open>
  Modelled from the spec: the authentication module (\<open>login.js\<close>) is not among the
  sources; only its tests are. The verification callback of the local strategy
  compares the presented username and password with the configured pair by direct
  string comparison and calls \<open>done(null, {user: 'bull-board'})\<close> on a match and
  \<open>done(null, false)\<close> otherwise. The result is the argument pair of that one call.
\<close>

definition fixed_user :: jsval where
  "fixed_user = JObj [(''user'', JStr ''bull-board'')]"

definition verify_credentials :: "config \<Rightarrow> string \<Rightarrow> string \<Rightarrow> jsval \<times> jsval" where
  "verify_credentials cfg username password =
     (if JStr username = cfg ''USER_LOGIN'' \<and> JStr password = cfg ''USER_PASSWORD''
      then (JNull, fixed_user)
      else (JNull, JBool False))"

section \<open>Health check: the response shapes\<close>

lemma healthcheck_status_200: "http_status (healthcheck ping) = 200"
  by (simp add: healthcheck_def split: prod.splits)

lemma healthcheck_pong:
  "healthcheck (Resolved (JStr ''PONG'')) =
     \<lparr> http_status = 200,
       json_body = JObj
         [(''status'', JStr ''ok''),
          (''info'', JObj
             [(''redis'', JObj
                [(''status'', JStr ''up''),
                 (''description'', JStr ''Based on the Redis PING/PONG system'')])])],
       console_error = [] \<rparr>"
  by (simp add: healthcheck_def spread_and_def)

lemma healthcheck_rejected_truthy:
  assumes "truthy err"
  shows "healthcheck (Rejected err) =
     \<lparr> http_status = 200,
       json_body = JObj
         [(''status'', JStr ''error''),
          (''info'', JObj
             [(''redis'', JObj
                [(''status'', JUndefined),
                 (''description'', JStr ''Based on the Redis PING/PONG system''),
                 (''error'', js_get err ''message'')])])],
       console_error = [err] \<rparr>"
  using assms by (simp add: healthcheck_def spread_and_def)

lemma healthcheck_rejected_falsy:
  assumes "\<not> truthy err"
  shows "healthcheck (Rejected err) =
     \<lparr> http_status = 200,
       json_body = JObj
         [(''status'', JStr ''error''),
          (''info'', JObj
             [(''redis'', JObj
                [(''status'', JUndefined),
                 (''description'', JStr ''Based on the Redis PING/PONG system'')])])],
       console_error = [err] \<rparr>"
  using assms by (simp add: healthcheck_def spread_and_def)

lemma healthcheck_not_pong:
  assumes "v \<noteq> JStr ''PONG''"
  shows "healthcheck (Resolved v) =
     \<lparr> http_status = 200,
       json_body = JObj
         [(''status'', JStr ''error''),
          (''info'', JObj
             [(''redis'', JObj
                [(''status'', JStr ''down''),
                 (''description'', JStr ''Based on the Redis PING/PONG system'')])])],
       console_error = [] \<rparr>"
  using assms by (simp add: healthcheck_def spread_and_def)

lemma falsy_message_undefined:
  "\<not> truthy err \<Longrightarrow> js_get err ''message'' = JUndefined"
  by (cases err) simp_all

text \<open>
  Claim C1. A ping that resolves to \<open>"PONG"\<close> is answered with status \<open>"ok"\<close>,
  \<open>info.redis.status\<close> \<open>"up"\<close> and no \<open>error\<close> key. A ping that rejects is answered with
  status \<open>"error"\<close>, \<open>info.redis.status\<close> bound to \<open>undefined\<close>, and \<open>info.redis.error\<close>
  reading the same as the rejection's \<open>message\<close> (for every rejection value on which
  \<open>message\<close> can be read, that is every value but \<open>undefined\<close> and \<open>null\<close>); when the
  rejection value is truthy, as every \<open>Error\<close> object is, the \<open>error\<close> key is a key of
  the body. The HTTP status code is 200 for every outcome of the ping.
\<close>

theorem healthcheck_two_case_contract:
  "http_status (healthcheck (Resolved (JStr ''PONG''))) = 200
   \<and> js_get (json_body (healthcheck (Resolved (JStr ''PONG'')))) ''status'' = JStr ''ok''
   \<and> js_get (redis_info (healthcheck (Resolved (JStr ''PONG'')))) ''status'' = JStr ''up''
   \<and> \<not> has_key (redis_info (healthcheck (Resolved (JStr ''PONG'')))) ''error''
   \<and> (\<forall>err. err \<noteq> JUndefined \<and> err \<noteq> JNull \<longrightarrow>
          http_status (healthcheck (Rejected err)) = 200
        \<and> js_get (json_body (healthcheck (Rejected err))) ''status'' = JStr ''error''
        \<and> has_key (redis_info (healthcheck (Rejected err))) ''status''
        \<and> js_get (redis_info (healthcheck (Rejected err))) ''status'' = JUndefined
        \<and> js_get (redis_info (healthcheck (Rejected err))) ''error'' = js_get err ''message''
        \<and> (truthy err \<longrightarrow> has_key (redis_info (healthcheck (Rejected err))) ''error''))
   \<and> (\<forall>m. js_get (redis_info (healthcheck (Rejected (js_Error m)))) ''error'' = JStr m)
   \<and> (\<forall>ping. http_status (healthcheck ping) = 200)"
proof -
  have ok: "http_status (healthcheck (Resolved (JStr ''PONG''))) = 200
   \<and> js_get (json_body (healthcheck (Resolved (JStr ''PONG'')))) ''status'' = JStr ''ok''
   \<and> js_get (redis_info (healthcheck (Resolved (JStr ''PONG'')))) ''status'' = JStr ''up''
   \<and> \<not> has_key (redis_info (healthcheck (Resolved (JStr ''PONG'')))) ''error''"
    by (simp add: healthcheck_pong redis_info_def)
  have rej: "http_status (healthcheck (Rejected err)) = 200
        \<and> js_get (json_body (healthcheck (Rejected err))) ''status'' = JStr ''error''
        \<and> has_key (redis_info (healthcheck (Rejected err))) ''status''
        \<and> js_get (redis_info (healthcheck (Rejected err))) ''status'' = JUndefined
        \<and> js_get (redis_info (healthcheck (Rejected err))) ''error'' = js_get err ''message''
        \<and> (truthy err \<longrightarrow> has_key (redis_info (healthcheck (Rejected err))) ''error'')" for err
  proof (cases "truthy err")
    case True
    then show ?thesis
      by (simp add: healthcheck_rejected_truthy redis_info_def)
  next
    case False
    then show ?thesis
      by (simp add: healthcheck_rejected_falsy redis_info_def falsy_message_undefined)
  qed
  have msg: "js_get (redis_info (healthcheck (Rejected (js_Error m)))) ''error'' = JStr m" for m
    by (simp add: healthcheck_def spread_and_def redis_info_def js_Error_def)
  show ?thesis
    using ok rej msg healthcheck_status_200 by simp
qed

theorem healthcheck_two_case_contract_witness:
  "js_Error ''Redis connection error'' \<noteq> JUndefined
   \<and> js_Error ''Redis connection error'' \<noteq> JNull
   \<and> truthy (js_Error ''Redis connection error'')
   \<and> has_key (redis_info (healthcheck (Rejected (js_Error ''Redis connection error'')))) ''error''
   \<and> js_get (redis_info (healthcheck (Rejected (js_Error ''Redis connection error'')))) ''error''
       = JStr ''Redis connection error''
   \<and> js_get (redis_info (healthcheck (Rejected (js_Error ''Redis connection error'')))) ''status''
       = JUndefined
   \<and> js_get (json_body (healthcheck (Rejected (js_Error ''Redis connection error'')))) ''status''
       = JStr ''error''"
proof -
  have h: "js_Error ''Redis connection error'' \<noteq> JUndefined
      \<and> js_Error ''Redis connection error'' \<noteq> JNull"
    and t: "truthy (js_Error ''Redis connection error'')"
    by (simp_all add: js_Error_def)
  note c = healthcheck_two_case_contract
    [THEN conjunct2, THEN conjunct2, THEN conjunct2, THEN conjunct2]
  from c [THEN conjunct1, rule_format, OF h] c [THEN conjunct2, THEN conjunct1] h t
  show ?thesis by simp
qed

text \<open>
  Claim C10. A ping that resolves to any value other than \<open>"PONG"\<close> is answered with
  status \<open>"error"\<close>, \<open>info.redis.status\<close> \<open>"down"\<close>, no \<open>error\<close> key and HTTP status 200:
  a third response shape beside the two of the health-check contract.
\<close>

theorem healthcheck_resolved_not_pong_down:
  assumes "v \<noteq> JStr ''PONG''"
  shows "http_status (healthcheck (Resolved v)) = 200
    \<and> js_get (json_body (healthcheck (Resolved v))) ''status'' = JStr ''error''
    \<and> js_get (redis_info (healthcheck (Resolved v))) ''status'' = JStr ''down''
    \<and> \<not> has_key (redis_info (healthcheck (Resolved v))) ''error''
    \<and> healthcheck (Resolved v) \<noteq> healthcheck (Resolved (JStr ''PONG''))
    \<and> (\<forall>err. healthcheck (Resolved v) \<noteq> healthcheck (Rejected err))"
  using assms
  by (simp add: healthcheck_not_pong healthcheck_pong redis_info_def healthcheck_def
        spread_and_def)

theorem healthcheck_resolved_not_pong_down_witness:
  "JStr ''LOADING'' \<noteq> JStr ''PONG''
   \<and> http_status (healthcheck (Resolved (JStr ''LOADING''))) = 200
   \<and> js_get (json_body (healthcheck (Resolved (JStr ''LOADING'')))) ''status'' = JStr ''error''
   \<and> js_get (redis_info (healthcheck (Resolved (JStr ''LOADING'')))) ''status'' = JStr ''down''
   \<and> \<not> has_key (redis_info (healthcheck (Resolved (JStr ''LOADING'')))) ''error''"
proof -
  have h: "JStr ''LOADING'' \<noteq> JStr ''PONG''" by simp
  from h healthcheck_resolved_not_pong_down [OF h] show ?thesis by blast
qed

section \<open>Sentinel DSN parsing: well-formed input\<close>

lemma js_split_no_sep:
  "list_all (\<lambda>c. \<not> sep c) h \<Longrightarrow> js_split sep h = [h]"
  by (induction h) simp_all

lemma js_split_up_to_sep:
  "list_all (\<lambda>c. \<not> sep c) h \<Longrightarrow> sep x \<Longrightarrow> js_split sep (h @ x # r) = h # js_split sep r"
  by (induction h) simp_all

lemma decimal_digit_value:
  "is_decimal_digit c \<Longrightarrow> digit_value c = Some ((of_char c :: nat) - 48)"
  by (simp add: is_decimal_digit_def digit_value_def)

lemma decimal_digit_radix: "is_decimal_digit c \<Longrightarrow> radix_digit 10 c"
  by (auto simp add: radix_digit_def decimal_digit_value is_decimal_digit_def)

lemma decimal_digit_not_space: "is_decimal_digit c \<Longrightarrow> \<not> is_js_space c"
  by (auto simp add: is_decimal_digit_def is_js_space_def)

lemma decimal_digit_not_special:
  "is_decimal_digit c \<Longrightarrow>
     c \<noteq> CHR ''-'' \<and> c \<noteq> CHR ''+'' \<and> c \<noteq> CHR ''x'' \<and> c \<noteq> CHR ''X''
     \<and> c \<noteq> CHR '':'' \<and> c \<noteq> CHR '','' \<and> c \<noteq> CHR '';''"
  by (auto simp add: is_decimal_digit_def)

lemma foldl_digits:
  "list_all is_decimal_digit p \<Longrightarrow>
   foldl (\<lambda>acc c. acc * 10 + (case digit_value c of Some d \<Rightarrow> d | None \<Rightarrow> 0)) a p
   = foldl (\<lambda>acc c. 10 * acc + ((of_char c :: nat) - 48)) a p"
  by (induction p arbitrary: a) (simp_all add: decimal_digit_value mult.commute)

lemma digits_value_decimal:
  "list_all is_decimal_digit p \<Longrightarrow> digits_value 10 p = decimal_value p"
  by (simp add: digits_value_def decimal_value_def foldl_digits)

lemma takeWhile_digits:
  "list_all is_decimal_digit p \<Longrightarrow> takeWhile (radix_digit 10) p = p"
  by (induction p) (simp_all add: decimal_digit_radix)

lemma parseInt_port_text:
  assumes "port_text p"
  shows "parseInt p = JNum (int (decimal_value p))"
proof -
  from assms obtain c r where p: "p = c # r" and c: "is_decimal_digit c"
    and r: "list_all is_decimal_digit r"
    by (cases p) (auto simp add: port_text_def)
  have all: "list_all is_decimal_digit p" using p c r by simp
  have sp: "dropWhile is_js_space p = p"
    using p c by (simp add: decimal_digit_not_space)
  have sg: "strip_sign p = (1, p)"
    using p decimal_digit_not_special [OF c] by (simp add: strip_sign_def)
  have rd: "strip_radix p = (10, p)"
  proof (cases r)
    case Nil
    then show ?thesis using p by (simp add: strip_radix_def)
  next
    case (Cons x r')
    with r have "is_decimal_digit x" by simp
    from decimal_digit_not_special [OF this] show ?thesis
      using p Cons by (simp add: strip_radix_def)
  qed
  have ne: "takeWhile (radix_digit 10) p \<noteq> []"
    using takeWhile_digits [OF all] p by simp
  show ?thesis
    using ne by (simp add: parseInt_def sp sg rd takeWhile_digits [OF all] digits_value_decimal [OF all])
qed

lemma sentinel_of_host_port:
  assumes "host_text h" and "port_text p"
  shows "sentinel_of_entry (h @ CHR '':'' # p) = sentinel (h, p)"
proof -
  have h: "list_all (\<lambda>c. \<not> c = CHR '':'') h"
    using assms(1) by (simp add: host_text_def list_all_iff)
  have p: "list_all (\<lambda>c. \<not> c = CHR '':'') p"
    using assms(2) decimal_digit_not_special by (auto simp add: port_text_def list_all_iff)
  have "js_split (\<lambda>c. c = CHR '':'') (h @ CHR '':'' # p) = [h, p]"
    using js_split_up_to_sep [of "\<lambda>c. c = CHR '':''" h "CHR '':''" p]
      js_split_no_sep [of "\<lambda>c. c = CHR '':''" p] h p
    by simp
  then show ?thesis
    by (simp add: sentinel_of_entry_def sentinel_def parseInt_port_text [OF assms(2)])
qed

lemma entry_no_separator:
  assumes "host_text h" and "port_text p"
  shows "list_all (\<lambda>c. \<not> is_dsn_separator c) (h @ CHR '':'' # p)"
  using assms decimal_digit_not_special
  by (auto simp add: host_text_def port_text_def list_all_iff is_dsn_separator_def)

lemma split_dsn_text:
  "host_text h \<Longrightarrow> port_text p \<Longrightarrow>
   list_all (\<lambda>(sep, h', p'). is_dsn_separator sep \<and> host_text h' \<and> port_text p') rest \<Longrightarrow>
   map sentinel_of_entry (js_split is_dsn_separator (dsn_text (h, p) rest))
     = map sentinel ((h, p) # map snd rest)"
proof (induction rest arbitrary: h p)
  case Nil
  then show ?case
    using js_split_no_sep [OF entry_no_separator [of h p]]
    by (simp add: sentinel_of_host_port)
next
  case (Cons e rest)
  obtain sep h' p' where e: "e = (sep, h', p')" by (cases e)
  from Cons.prems e have sep: "is_dsn_separator sep" and h': "host_text h'" and p': "port_text p'"
    and rest: "list_all (\<lambda>(sep, h', p'). is_dsn_separator sep \<and> host_text h' \<and> port_text p') rest"
    by simp_all
  have "js_split is_dsn_separator ((h @ CHR '':'' # p) @ sep # dsn_text (h', p') rest)
      = (h @ CHR '':'' # p) # js_split is_dsn_separator (dsn_text (h', p') rest)"
    using js_split_up_to_sep [OF entry_no_separator [OF Cons.prems(1,2)] sep] .
  then show ?case
    using Cons.IH [OF h' p' rest] e
    by (simp add: sentinel_of_host_port [OF Cons.prems(1,2)])
qed

lemma js_split_first_piece:
  "js_split sep s \<noteq> [] \<and> hd (js_split sep s) = takeWhile (\<lambda>c. \<not> sep c) s"
  by (induction s) (auto split: list.splits)

lemma sentinel_host_any_entry:
  "js_get (sentinel_of_entry e) ''host'' = JStr (takeWhile (\<lambda>c. c \<noteq> CHR '':'') e)"
  using js_split_first_piece [of "\<lambda>c. c = CHR '':''" e]
  by (cases "js_split (\<lambda>c. c = CHR '':'') e") (simp_all add: sentinel_of_entry_def)

lemma sentinel_entry_without_port:
  "sentinel_of_entry ''host1'' = JObj [(''host'', JStr ''host1''), (''port'', JNaN)]"
  by (simp add: sentinel_of_entry_def parseInt_def strip_sign_def strip_radix_def
        is_js_space_def radix_digit_def digit_value_def)

text \<open>
  Claim C3. For every sentinel DSN string made of \<open>host:port\<close> entries separated by
  \<open>','\<close> or \<open>';'\<close>, \<open>parseDSNToSentinels\<close> returns, in input order, one \<open>{host, port}\<close>
  record per entry, whose host is the text before the \<open>':'\<close> and whose port is the
  integer denoted by the digits after it; every port is an integer (never \<open>NaN\<close>).
\<close>

theorem parseDSNToSentinels_host_port_entries:
  assumes "host_text h \<and> port_text p"
    and "list_all (\<lambda>(sep, h', p'). is_dsn_separator sep \<and> host_text h' \<and> port_text p') rest"
  shows "parseDSNToSentinels (JStr (dsn_text (h, p) rest))
           = Inr (JArr (map sentinel ((h, p) # map snd rest)))"
  using assms split_dsn_text by simp

theorem parseDSNToSentinels_host_port_entries_witness:
  "host_text ''host1'' \<and> port_text ''26379''
   \<and> list_all (\<lambda>(sep, h', p'). is_dsn_separator sep \<and> host_text h' \<and> port_text p')
        [(CHR '','', ''host2'', ''26380''), (CHR '';'', ''10.0.0.3'', ''26381'')]
   \<and> parseDSNToSentinels (JStr ''host1:26379,host2:26380;10.0.0.3:26381'')
       = Inr (JArr
           [JObj [(''host'', JStr ''host1''), (''port'', JNum 26379)],
            JObj [(''host'', JStr ''host2''), (''port'', JNum 26380)],
            JObj [(''host'', JStr ''10.0.0.3''), (''port'', JNum 26381)]])"
proof -
  have a: "host_text ''host1'' \<and> port_text ''26379''"
    by (simp add: host_text_def port_text_def is_decimal_digit_def)
  have b: "list_all (\<lambda>(sep, h', p'). is_dsn_separator sep \<and> host_text h' \<and> port_text p')
        [(CHR '','', ''host2'', ''26380''), (CHR '';'', ''10.0.0.3'', ''26381'')]"
    by (simp add: host_text_def port_text_def is_decimal_digit_def is_dsn_separator_def)
  from parseDSNToSentinels_host_port_entries [OF a b] a b
  show ?thesis
    by (simp add: sentinel_def decimal_value_def)
qed

section \<open>Redis options: sentinel or direct topology\<close>

lemma key_spread_and [simp]:
  "k \<in> fst ` set (spread_and c kvs) \<longleftrightarrow> truthy c \<and> k \<in> fst ` set kvs"
  by (auto simp add: spread_and_def)

lemma map_of_spread_and [simp]:
  "map_of (spread_and c kvs) k = (if truthy c then map_of kvs k else None)"
  by (simp add: spread_and_def)

lemma redis_options_falsy_hosts:
  "\<not> truthy (cfg ''SENTINEL_HOSTS'') \<Longrightarrow>
     redis_options cfg = Inr (JObj (redis_properties cfg JUndefined))"
  by (simp add: redis_options_def)

lemma redis_options_string_hosts:
  "cfg ''SENTINEL_HOSTS'' = JStr dsn \<Longrightarrow> dsn \<noteq> [] \<Longrightarrow>
     redis_options cfg =
       Inr (JObj (redis_properties cfg
              (JArr (map sentinel_of_entry (js_split is_dsn_separator dsn)))))"
  by (simp add: redis_options_def)

lemma redis_options_other_hosts:
  "truthy (cfg ''SENTINEL_HOSTS'') \<Longrightarrow> \<forall>dsn. cfg ''SENTINEL_HOSTS'' \<noteq> JStr dsn \<Longrightarrow>
     redis_options cfg = Inl TypeError"
  by (cases "cfg ''SENTINEL_HOSTS''") (simp_all add: redis_options_def)

lemma redis_options_Inr:
  "redis_options cfg = Inr opts \<Longrightarrow> \<exists>ss. opts = JObj (redis_properties cfg ss)"
  by (auto simp add: redis_options_def split: if_splits sum.splits)

lemma sentinel_branch_keys:
  assumes "truthy (cfg ''SENTINEL_HOSTS'')"
  shows "has_key (JObj (redis_properties cfg ss)) ''sentinels''
    \<and> has_key (JObj (redis_properties cfg ss)) ''name''
    \<and> has_key (JObj (redis_properties cfg ss)) ''role''
    \<and> \<not> has_key (JObj (redis_properties cfg ss)) ''host''
    \<and> \<not> has_key (JObj (redis_properties cfg ss)) ''port''
    \<and> \<not> has_key (JObj (redis_properties cfg ss)) ''family''"
  using assms
  by (simp add: redis_properties_def sentinel_options_def js_not_def image_Un)

lemma sentinel_branch_values:
  assumes "truthy (cfg ''SENTINEL_HOSTS'')"
  shows "js_get (JObj (redis_properties cfg ss)) ''sentinels'' = ss
    \<and> js_get (JObj (redis_properties cfg ss)) ''name'' = cfg ''SENTINEL_NAME''
    \<and> js_get (JObj (redis_properties cfg ss)) ''role'' = cfg ''SENTINEL_ROLE''"
  using assms
  by (simp add: redis_properties_def sentinel_options_def js_not_def spread_and_def)

lemma direct_branch:
  assumes "\<not> truthy (cfg ''SENTINEL_HOSTS'')"
  shows "has_key (JObj (redis_properties cfg ss)) ''port''
    \<and> has_key (JObj (redis_properties cfg ss)) ''host''
    \<and> has_key (JObj (redis_properties cfg ss)) ''family''
    \<and> js_get (JObj (redis_properties cfg ss)) ''port'' = cfg ''REDIS_PORT''
    \<and> js_get (JObj (redis_properties cfg ss)) ''host'' = cfg ''REDIS_HOST''
    \<and> js_get (JObj (redis_properties cfg ss)) ''family'' = cfg ''REDIS_FAMILY''
    \<and> list_all (\<lambda>k. \<not> has_key (JObj (redis_properties cfg ss)) k) sentinel_topology_keys"
  using assms
  by (simp add: redis_properties_def sentinel_options_def js_not_def image_Un
        sentinel_topology_keys_def map_add_def)

text \<open>
  Claim C9. The options builder branches once on \<open>SENTINEL_HOSTS\<close>. When it is
  present (a non-empty string), the options carry the sentinel-topology fields, with
  \<open>sentinels\<close> the parsed host list, \<open>name\<close> and \<open>role\<close>, and no direct \<open>host\<close> or
  \<open>port\<close> key. When it is absent (falsy), the options carry the direct \<open>port\<close>,
  \<open>host\<close> and \<open>family\<close> keys and none of the sentinel-topology keys.
\<close>

theorem redis_options_branch_once:
  "(\<forall>dsn. cfg ''SENTINEL_HOSTS'' = JStr dsn \<and> dsn \<noteq> [] \<longrightarrow>
      (\<exists>opts. redis_options cfg = Inr opts
         \<and> parseDSNToSentinels (JStr dsn) = Inr (js_get opts ''sentinels'')
         \<and> js_get opts ''name'' = cfg ''SENTINEL_NAME''
         \<and> js_get opts ''role'' = cfg ''SENTINEL_ROLE''
         \<and> has_key opts ''sentinels'' \<and> has_key opts ''name'' \<and> has_key opts ''role''
         \<and> \<not> has_key opts ''host'' \<and> \<not> has_key opts ''port''))
   \<and> (\<not> truthy (cfg ''SENTINEL_HOSTS'') \<longrightarrow>
      (\<exists>opts. redis_options cfg = Inr opts
         \<and> has_key opts ''port'' \<and> has_key opts ''host'' \<and> has_key opts ''family''
         \<and> js_get opts ''port'' = cfg ''REDIS_PORT''
         \<and> js_get opts ''host'' = cfg ''REDIS_HOST''
         \<and> js_get opts ''family'' = cfg ''REDIS_FAMILY''
         \<and> list_all (\<lambda>k. \<not> has_key opts k) sentinel_topology_keys))"
proof (intro conjI allI impI)
  fix dsn
  assume h: "cfg ''SENTINEL_HOSTS'' = JStr dsn \<and> dsn \<noteq> []"
  then have t: "truthy (cfg ''SENTINEL_HOSTS'')" by simp
  let ?ss = "JArr (map sentinel_of_entry (js_split is_dsn_separator dsn))"
  from h have "redis_options cfg = Inr (JObj (redis_properties cfg ?ss))"
    by (simp add: redis_options_string_hosts)
  with sentinel_branch_keys [of cfg ?ss, OF t] sentinel_branch_values [of cfg ?ss, OF t]
  show "\<exists>opts. redis_options cfg = Inr opts
         \<and> parseDSNToSentinels (JStr dsn) = Inr (js_get opts ''sentinels'')
         \<and> js_get opts ''name'' = cfg ''SENTINEL_NAME''
         \<and> js_get opts ''role'' = cfg ''SENTINEL_ROLE''
         \<and> has_key opts ''sentinels'' \<and> has_key opts ''name'' \<and> has_key opts ''role''
         \<and> \<not> has_key opts ''host'' \<and> \<not> has_key opts ''port''"
    by simp
next
  assume f: "\<not> truthy (cfg ''SENTINEL_HOSTS'')"
  from redis_options_falsy_hosts [of cfg, OF f] direct_branch [of cfg JUndefined, OF f]
  show "\<exists>opts. redis_options cfg = Inr opts
         \<and> has_key opts ''port'' \<and> has_key opts ''host'' \<and> has_key opts ''family''
         \<and> js_get opts ''port'' = cfg ''REDIS_PORT''
         \<and> js_get opts ''host'' = cfg ''REDIS_HOST''
         \<and> js_get opts ''family'' = cfg ''REDIS_FAMILY''
         \<and> list_all (\<lambda>k. \<not> has_key opts k) sentinel_topology_keys"
    by simp
qed

lemma sentinel_test_config_hosts:
  "sentinel_test_config ''SENTINEL_HOSTS'' = JStr ''host1:26379,host2:26379''
   \<and> sentinel_test_config ''SENTINEL_NAME'' = JStr ''mymaster''
   \<and> sentinel_test_config ''SENTINEL_ROLE'' = JStr ''master''"
  by (simp add: sentinel_test_config_def config_of_def)

lemma default_test_config_values:
  "default_test_config ''SENTINEL_HOSTS'' = JUndefined
   \<and> default_test_config ''REDIS_PORT'' = JNum 6379
   \<and> default_test_config ''REDIS_HOST'' = JStr ''localhost''
   \<and> default_test_config ''REDIS_FAMILY'' = JNum 4"
  by (simp add: default_test_config_def config_of_def)

theorem redis_options_branch_once_witness:
  "sentinel_test_config ''SENTINEL_HOSTS'' = JStr ''host1:26379,host2:26379''
   \<and> ''host1:26379,host2:26379'' \<noteq> []
   \<and> (\<exists>opts. redis_options sentinel_test_config = Inr opts
         \<and> js_get opts ''sentinels'' =
             JArr [JObj [(''host'', JStr ''host1''), (''port'', JNum 26379)],
                   JObj [(''host'', JStr ''host2''), (''port'', JNum 26379)]]
         \<and> js_get opts ''name'' = JStr ''mymaster''
         \<and> js_get opts ''role'' = JStr ''master''
         \<and> \<not> has_key opts ''host'' \<and> \<not> has_key opts ''port'')
   \<and> \<not> truthy (default_test_config ''SENTINEL_HOSTS'')
   \<and> (\<exists>opts. redis_options default_test_config = Inr opts
         \<and> js_get opts ''port'' = JNum 6379
         \<and> js_get opts ''host'' = JStr ''localhost''
         \<and> js_get opts ''family'' = JNum 4
         \<and> \<not> has_key opts ''sentinels'')"
proof -
  have p: "parseDSNToSentinels (JStr ''host1:26379,host2:26379'') =
      Inr (JArr [JObj [(''host'', JStr ''host1''), (''port'', JNum 26379)],
                 JObj [(''host'', JStr ''host2''), (''port'', JNum 26379)]])"
    by (simp add: sentinel_of_entry_def parseInt_def strip_sign_def strip_radix_def
        is_js_space_def radix_digit_def digit_value_def digits_value_def is_dsn_separator_def)
  have a: "sentinel_test_config ''SENTINEL_HOSTS'' = JStr ''host1:26379,host2:26379''
      \<and> ''host1:26379,host2:26379'' \<noteq> []"
    by (simp add: sentinel_test_config_hosts)
  have b: "\<not> truthy (default_test_config ''SENTINEL_HOSTS'')"
    by (simp add: default_test_config_values)
  from redis_options_branch_once [of sentinel_test_config, THEN conjunct1, rule_format, OF a]
  have s: "\<exists>opts. redis_options sentinel_test_config = Inr opts
         \<and> js_get opts ''sentinels'' =
             JArr [JObj [(''host'', JStr ''host1''), (''port'', JNum 26379)],
                   JObj [(''host'', JStr ''host2''), (''port'', JNum 26379)]]
         \<and> js_get opts ''name'' = JStr ''mymaster''
         \<and> js_get opts ''role'' = JStr ''master''
         \<and> \<not> has_key opts ''host'' \<and> \<not> has_key opts ''port''"
    unfolding p by (auto simp add: sentinel_test_config_hosts)
  from redis_options_branch_once [of default_test_config, THEN conjunct2, rule_format, OF b]
  have d: "\<exists>opts. redis_options default_test_config = Inr opts
         \<and> js_get opts ''port'' = JNum 6379
         \<and> js_get opts ''host'' = JStr ''localhost''
         \<and> js_get opts ''family'' = JNum 4
         \<and> \<not> has_key opts ''sentinels''"
    by (auto simp add: default_test_config_values sentinel_topology_keys_def)
  from a b s d show ?thesis by blast
qed

section \<open>Redis options: optional fields\<close>

lemma pair_in_spread_and:
  "kv \<in> set (spread_and c kvs) \<longleftrightarrow> truthy c \<and> kv \<in> set kvs"
  by (simp add: spread_and_def)

lemma distinct_spread_and [simp]:
  "distinct (map fst (spread_and c kvs)) \<longleftrightarrow> (truthy c \<longrightarrow> distinct (map fst kvs))"
  by (simp add: spread_and_def)

lemma spread_and_disjoint_left [simp]:
  "fst ` set (spread_and c kvs) \<inter> T = {} \<longleftrightarrow> (truthy c \<longrightarrow> fst ` set kvs \<inter> T = {})"
  by (cases "truthy c") (simp_all add: spread_and_def)

lemma spread_and_disjoint_right [simp]:
  "T \<inter> fst ` set (spread_and c kvs) = {} \<longleftrightarrow> (truthy c \<longrightarrow> T \<inter> fst ` set kvs = {})"
  by (cases "truthy c") (simp_all add: spread_and_def)

lemma distinct_sentinel_options: "distinct (map fst (sentinel_options cfg ss))"
  by (simp add: sentinel_options_def image_Un Int_Un_distrib Int_Un_distrib2)

lemma sentinel_options_keys:
  "fst ` set (sentinel_options cfg ss) \<subseteq> set sentinel_topology_keys"
  by (auto simp add: sentinel_options_def sentinel_topology_keys_def pair_in_spread_and)

lemma distinct_redis_properties: "distinct (map fst (redis_properties cfg ss))"
  by (simp add: redis_properties_def distinct_sentinel_options image_Un Int_Un_distrib Int_Un_distrib2
     sentinel_options_def)


lemma js_get_member:
  "distinct (map fst kvs) \<Longrightarrow> (k, v) \<in> set kvs \<Longrightarrow> js_get (JObj kvs) k = v"
  by simp

lemma optional_keys_iff:
  "list_all (\<lambda>(k, src). has_key (JObj (redis_properties cfg ss)) k \<longleftrightarrow> truthy (cfg src))
     optional_fields"
  by (simp add: redis_properties_def sentinel_options_def js_not_def image_Un optional_fields_def)

lemma sentinel_optional_keys_iff:
  "list_all (\<lambda>(k, src). has_key (JObj (redis_properties cfg ss)) k
       \<longleftrightarrow> truthy (cfg ''SENTINEL_HOSTS'') \<and> truthy (cfg src))
     sentinel_optional_fields"
  by (simp add: redis_properties_def sentinel_options_def js_not_def image_Un
        sentinel_optional_fields_def)

lemma optional_fields_members:
  "list_all (\<lambda>(k, src). truthy (cfg src) \<longrightarrow> (k, cfg src) \<in> set (redis_properties cfg ss))
     optional_fields"
  by (simp add: redis_properties_def optional_fields_def pair_in_spread_and)

lemma sentinel_optional_fields_members:
  "list_all (\<lambda>(k, src). truthy (cfg ''SENTINEL_HOSTS'') \<and> truthy (cfg src)
          \<longrightarrow> (k, cfg src) \<in> set (redis_properties cfg ss))
     sentinel_optional_fields"
  by (simp add: redis_properties_def sentinel_options_def
        sentinel_optional_fields_def pair_in_spread_and)

lemma fixed_fields_members:
  "(''tls'', JBool (cfg ''REDIS_USE_TLS'' = JStr ''true'')) \<in> set (redis_properties cfg ss)
   \<and> (truthy (cfg ''SENTINEL_HOSTS'') \<longrightarrow>
        (''maxRetriesPerRequest'', js_or (cfg ''MAX_RETRIES_PER_REQUEST'') JNull)
          \<in> set (redis_properties cfg ss))"
  by (simp add: redis_properties_def sentinel_options_def pair_in_spread_and)

lemma has_key_member: "(k, v) \<in> set kvs \<Longrightarrow> has_key (JObj kvs) k"
  by (force simp add: image_iff)

lemma parse_test_dsn:
  "parseDSNToSentinels (JStr ''host1:26379,host2:26379'') =
      Inr (JArr [JObj [(''host'', JStr ''host1''), (''port'', JNum 26379)],
                 JObj [(''host'', JStr ''host2''), (''port'', JNum 26379)]])"
  by (simp add: sentinel_of_entry_def parseInt_def strip_sign_def strip_radix_def
        is_js_space_def radix_digit_def digit_value_def digits_value_def is_dsn_separator_def)

lemma redis_options_default_test_config:
  "redis_options default_test_config =
     Inr (JObj
       [(''port'', JNum 6379), (''host'', JStr ''localhost''), (''family'', JNum 4),
        (''db'', JStr ''0''), (''username'', JStr ''testuser''),
        (''password'', JStr ''testpassword''), (''tls'', JBool False),
        (''keepAlive'', JNum 5000), (''noDelay'', JBool True),
        (''autoResubscribe'', JUndefined), (''autoResendUnfulfilledCommands'', JUndefined),
        (''enableOfflineQueue'', JBool True), (''enableReadyCheck'', JBool True)])"
  by (simp add: redis_options_def redis_properties_def spread_and_def js_not_def
        default_test_config_def config_of_def)

lemma redis_options_sentinel_test_config:
  "redis_options sentinel_test_config =
     Inr (JObj
       [(''sentinels'',
         JArr [JObj [(''host'', JStr ''host1''), (''port'', JNum 26379)],
               JObj [(''host'', JStr ''host2''), (''port'', JNum 26379)]]),
        (''name'', JStr ''mymaster''), (''role'', JStr ''master''),
        (''maxRetriesPerRequest'', JNull),
        (''enableTLSForSentinelMode'', JUndefined), (''updateSentinels'', JUndefined),
        (''sentinelMaxConnections'', JUndefined), (''failoverDetector'', JUndefined),
        (''db'', JUndefined), (''tls'', JBool False), (''keepAlive'', JUndefined),
        (''noDelay'', JUndefined), (''autoResubscribe'', JUndefined),
        (''autoResendUnfulfilledCommands'', JUndefined),
        (''enableOfflineQueue'', JUndefined), (''enableReadyCheck'', JUndefined)])"
proof -
  have c: "sentinel_test_config ''SENTINEL_HOSTS'' = JStr ''host1:26379,host2:26379''"
    by (simp add: sentinel_test_config_hosts)
  have "redis_options sentinel_test_config =
      Inr (JObj (redis_properties sentinel_test_config
        (JArr [JObj [(''host'', JStr ''host1''), (''port'', JNum 26379)],
               JObj [(''host'', JStr ''host2''), (''port'', JNum 26379)]])))"
    unfolding redis_options_def c parse_test_dsn by simp
  then show ?thesis
    by (simp add: redis_properties_def sentinel_options_def spread_and_def js_not_def js_or_def
        sentinel_test_config_def config_of_def)
qed

lemma redis_options_sentinel_user_only_config:
  "redis_options sentinel_user_only_config =
     Inr (JObj
       [(''port'', JUndefined), (''host'', JUndefined), (''family'', JUndefined),
        (''db'', JUndefined), (''tls'', JBool False), (''keepAlive'', JUndefined),
        (''noDelay'', JUndefined), (''autoResubscribe'', JUndefined),
        (''autoResendUnfulfilledCommands'', JUndefined),
        (''enableOfflineQueue'', JUndefined), (''enableReadyCheck'', JUndefined)])"
  by (simp add: redis_options_def redis_properties_def spread_and_def js_not_def
        sentinel_user_only_config_def config_of_def)

text \<open>
  The optional fields are not all conditional. With the sentinel configuration of the
  Redis client tests, which sets neither \<open>REDIS_USE_TLS\<close> nor
  \<open>MAX_RETRIES_PER_REQUEST\<close>, the options still have the key \<open>tls\<close>, bound to
  \<open>false\<close>, and the key \<open>maxRetriesPerRequest\<close>, bound to \<open>null\<close>. With a configuration
  that sets \<open>SENTINEL_USERNAME\<close> but no \<open>SENTINEL_HOSTS\<close>, the options have no
  \<open>sentinelUsername\<close> key although its source value is present.
\<close>

theorem redis_options_unconditional_keys_counterexample:
  "sentinel_test_config ''REDIS_USE_TLS'' = JUndefined
   \<and> sentinel_test_config ''MAX_RETRIES_PER_REQUEST'' = JUndefined
   \<and> redis_options sentinel_test_config =
     Inr (JObj
       [(''sentinels'',
         JArr [JObj [(''host'', JStr ''host1''), (''port'', JNum 26379)],
               JObj [(''host'', JStr ''host2''), (''port'', JNum 26379)]]),
        (''name'', JStr ''mymaster''), (''role'', JStr ''master''),
        (''maxRetriesPerRequest'', JNull),
        (''enableTLSForSentinelMode'', JUndefined), (''updateSentinels'', JUndefined),
        (''sentinelMaxConnections'', JUndefined), (''failoverDetector'', JUndefined),
        (''db'', JUndefined), (''tls'', JBool False), (''keepAlive'', JUndefined),
        (''noDelay'', JUndefined), (''autoResubscribe'', JUndefined),
        (''autoResendUnfulfilledCommands'', JUndefined),
        (''enableOfflineQueue'', JUndefined), (''enableReadyCheck'', JUndefined)])
   \<and> sentinel_user_only_config ''SENTINEL_USERNAME'' = JStr ''sentinel-user''
   \<and> redis_options sentinel_user_only_config =
     Inr (JObj
       [(''port'', JUndefined), (''host'', JUndefined), (''family'', JUndefined),
        (''db'', JUndefined), (''tls'', JBool False), (''keepAlive'', JUndefined),
        (''noDelay'', JUndefined), (''autoResubscribe'', JUndefined),
        (''autoResendUnfulfilledCommands'', JUndefined),
        (''enableOfflineQueue'', JUndefined), (''enableReadyCheck'', JUndefined)])"
  by (simp add: redis_options_sentinel_test_config redis_options_sentinel_user_only_config)
    (simp add: sentinel_test_config_def sentinel_user_only_config_def config_of_def)

text \<open>
  Claim C2, as amended. For every configuration for which the builder returns options:
  \<open>username\<close>, \<open>password\<close>, \<open>commandTimeout\<close>, \<open>socketTimeout\<close>, \<open>connectTimeout\<close> and
  \<open>connectionName\<close> are keys of the options exactly when their source value is present
  (truthy); \<open>sentinelUsername\<close>, \<open>sentinelPassword\<close> and \<open>sentinelCommandTimeout\<close> are
  keys exactly when \<open>SENTINEL_HOSTS\<close> and their source value are both present; a key of
  either group is bound to its source value, hence never to \<open>null\<close>, \<open>undefined\<close> or an
  empty value. The \<open>tls\<close> key is always present, bound to the boolean
  \<open>REDIS_USE_TLS === 'true'\<close>, and in sentinel mode \<open>maxRetriesPerRequest\<close> is always
  present, bound to \<open>MAX_RETRIES_PER_REQUEST || null\<close>.
\<close>

theorem redis_options_optional_fields:
  assumes "redis_options cfg = Inr opts"
  shows "list_all (\<lambda>(k, src).
            (has_key opts k \<longleftrightarrow> truthy (cfg src))
          \<and> (has_key opts k \<longrightarrow> js_get opts k = cfg src \<and> truthy (js_get opts k)))
          optional_fields
       \<and> list_all (\<lambda>(k, src).
            (has_key opts k \<longleftrightarrow> truthy (cfg ''SENTINEL_HOSTS'') \<and> truthy (cfg src))
          \<and> (has_key opts k \<longrightarrow> js_get opts k = cfg src \<and> truthy (js_get opts k)))
          sentinel_optional_fields
       \<and> has_key opts ''tls''
       \<and> js_get opts ''tls'' = JBool (cfg ''REDIS_USE_TLS'' = JStr ''true'')
       \<and> (truthy (cfg ''SENTINEL_HOSTS'') \<longrightarrow>
            has_key opts ''maxRetriesPerRequest''
          \<and> js_get opts ''maxRetriesPerRequest'' = js_or (cfg ''MAX_RETRIES_PER_REQUEST'') JNull)"
proof -
  from assms obtain ss where opts: "opts = JObj (redis_properties cfg ss)"
    using redis_options_Inr by blast
  note d = distinct_redis_properties [of cfg ss]
  have a: "list_all (\<lambda>(k, src).
            (has_key opts k \<longleftrightarrow> truthy (cfg src))
          \<and> (has_key opts k \<longrightarrow> js_get opts k = cfg src \<and> truthy (js_get opts k)))
          optional_fields"
    using optional_keys_iff [of cfg ss] optional_fields_members [of cfg ss] js_get_member [OF d]
    unfolding opts list_all_iff by fastforce
  have b: "list_all (\<lambda>(k, src).
            (has_key opts k \<longleftrightarrow> truthy (cfg ''SENTINEL_HOSTS'') \<and> truthy (cfg src))
          \<and> (has_key opts k \<longrightarrow> js_get opts k = cfg src \<and> truthy (js_get opts k)))
          sentinel_optional_fields"
    using sentinel_optional_keys_iff [of cfg ss] sentinel_optional_fields_members [of cfg ss] js_get_member [OF d]
    unfolding opts list_all_iff by fastforce
  have c: "has_key opts ''tls''
       \<and> js_get opts ''tls'' = JBool (cfg ''REDIS_USE_TLS'' = JStr ''true'')"
    using fixed_fields_members [of cfg ss] js_get_member [OF d] has_key_member
    unfolding opts by blast
  have e: "truthy (cfg ''SENTINEL_HOSTS'') \<longrightarrow>
            has_key opts ''maxRetriesPerRequest''
          \<and> js_get opts ''maxRetriesPerRequest'' = js_or (cfg ''MAX_RETRIES_PER_REQUEST'') JNull"
    using fixed_fields_members [of cfg ss] js_get_member [OF d] has_key_member
    unfolding opts by blast
  from a b c e show ?thesis by blast
qed


theorem redis_options_optional_fields_witness:
  "redis_options default_test_config =
     Inr (JObj
       [(''port'', JNum 6379), (''host'', JStr ''localhost''), (''family'', JNum 4),
        (''db'', JStr ''0''), (''username'', JStr ''testuser''),
        (''password'', JStr ''testpassword''), (''tls'', JBool False),
        (''keepAlive'', JNum 5000), (''noDelay'', JBool True),
        (''autoResubscribe'', JUndefined), (''autoResendUnfulfilledCommands'', JUndefined),
        (''enableOfflineQueue'', JBool True), (''enableReadyCheck'', JBool True)])
   \<and> truthy (default_test_config ''REDIS_USER'')
   \<and> truthy (default_test_config ''REDIS_PASSWORD'')
   \<and> \<not> truthy (default_test_config ''REDIS_COMMAND_TIMEOUT'')
   \<and> \<not> truthy (default_test_config ''REDIS_CONNECTION_NAME'')
   \<and> \<not> truthy (default_test_config ''SENTINEL_HOSTS'')
   \<and> list_all (\<lambda>(k, src). truthy (default_test_config src)
          \<and> truthy (js_get (JObj (redis_properties default_test_config JUndefined)) k))
        [(''username'', ''REDIS_USER''), (''password'', ''REDIS_PASSWORD'')]"
proof -
  note h = redis_options_default_test_config
  have o: "redis_options default_test_config
      = Inr (JObj (redis_properties default_test_config JUndefined))"
    by (simp add: redis_options_falsy_hosts default_test_config_values)
  have v: "truthy (default_test_config ''REDIS_USER'')
      \<and> truthy (default_test_config ''REDIS_PASSWORD'')
      \<and> \<not> truthy (default_test_config ''REDIS_COMMAND_TIMEOUT'')
      \<and> \<not> truthy (default_test_config ''REDIS_CONNECTION_NAME'')
      \<and> \<not> truthy (default_test_config ''SENTINEL_HOSTS'')"
    by (simp add: default_test_config_def config_of_def)
  from redis_options_optional_fields [OF o] h v show ?thesis
    by (simp add: optional_fields_def)
qed

section \<open>Configuration derivation: authentication flag\<close>

lemma load_config_derived:
  "load_config e ''AUTH_ENABLED'' = JBool (AUTH_ENABLED e)
   \<and> load_config e ''HOME_PAGE'' = JStr (HOME_PAGE e)
   \<and> load_config e ''LOGIN_PAGE'' = JStr (LOGIN_PAGE e)"
  by (simp add: load_config_def config_of_def)

text \<open>
  Claim C4. For every environment, the derived flag \<open>AUTH_ENABLED\<close> is true if and
  only if both \<open>USER_LOGIN\<close> and \<open>USER_PASSWORD\<close> are set; if either is unset it is
  false. The server then mounts the login router and guards the dashboard exactly
  when both are set.
\<close>

theorem auth_enabled_iff_credentials_set:
  "(AUTH_ENABLED e \<longleftrightarrow> env_set (e ''USER_LOGIN'') \<and> env_set (e ''USER_PASSWORD''))
   \<and> (e ''USER_LOGIN'' = None \<or> e ''USER_PASSWORD'' = None \<longrightarrow> \<not> AUTH_ENABLED e)
   \<and> load_config e ''AUTH_ENABLED''
        = JBool (env_set (e ''USER_LOGIN'') \<and> env_set (e ''USER_PASSWORD''))
   \<and> (env_set (e ''USER_LOGIN'') \<and> env_set (e ''USER_PASSWORD'') \<longrightarrow>
        route_wiring (load_config e) =
          [(JStr (LOGIN_PAGE e), [AuthRouter]),
           (JStr (HOME_PAGE e), [EnsureLoggedIn (JStr (LOGIN_PAGE e)), BullRouter])])
   \<and> (\<not> (env_set (e ''USER_LOGIN'') \<and> env_set (e ''USER_PASSWORD'')) \<longrightarrow>
        route_wiring (load_config e) = [(JStr (HOME_PAGE e), [BullRouter])])"
  by (auto simp add: AUTH_ENABLED_def env_set_def route_wiring_def load_config_derived)

theorem auth_enabled_iff_credentials_set_witness:
  "AUTH_ENABLED (env_of [(''USER_LOGIN'', ''admin''), (''USER_PASSWORD'', ''password'')])
   \<and> env_of [(''USER_PASSWORD'', ''password'')] ''USER_LOGIN'' = None
   \<and> \<not> AUTH_ENABLED (env_of [(''USER_PASSWORD'', ''password'')])
   \<and> env_of [(''USER_LOGIN'', ''admin'')] ''USER_PASSWORD'' = None
   \<and> \<not> AUTH_ENABLED (env_of [(''USER_LOGIN'', ''admin'')])
   \<and> route_wiring (load_config (env_of [(''USER_PASSWORD'', ''password'')]))
        = [(JStr ''/'', [BullRouter])]"
proof -
  have a: "env_of [(''USER_PASSWORD'', ''password'')] ''USER_LOGIN'' = None"
    and b: "env_of [(''USER_LOGIN'', ''admin'')] ''USER_PASSWORD'' = None"
    and c: "env_set (env_of [(''USER_LOGIN'', ''admin''), (''USER_PASSWORD'', ''password'')]
              ''USER_LOGIN'')"
      "env_set (env_of [(''USER_LOGIN'', ''admin''), (''USER_PASSWORD'', ''password'')]
              ''USER_PASSWORD'')"
    and h: "HOME_PAGE (env_of [(''USER_PASSWORD'', ''password'')]) = ''/''"
    by (simp_all add: env_of_def env_set_def HOME_PAGE_def)
  from auth_enabled_iff_credentials_set
         [of "env_of [(''USER_LOGIN'', ''admin''), (''USER_PASSWORD'', ''password'')]"]
       auth_enabled_iff_credentials_set [of "env_of [(''USER_PASSWORD'', ''password'')]"]
       auth_enabled_iff_credentials_set [of "env_of [(''USER_LOGIN'', ''admin'')]"]
       a b c h
  show ?thesis by (simp add: env_set_def)
qed

section \<open>Configuration derivation: pages\<close>

lemma strip_trailing_slashes_decomp:
  "s = strip_trailing_slashes s
        @ replicate (length (takeWhile (\<lambda>c. c = CHR ''/'') (rev s))) CHR ''/''"
proof -
  let ?P = "\<lambda>c. c = CHR ''/''"
  have t: "takeWhile ?P (rev s) = replicate (length (takeWhile ?P (rev s))) CHR ''/''"
    by (rule replicate_eqI) (auto dest: set_takeWhileD)
  have "rev s = takeWhile ?P (rev s) @ dropWhile ?P (rev s)" by simp
  then have "s = rev (dropWhile ?P (rev s)) @ rev (takeWhile ?P (rev s))"
    by (metis rev_append rev_rev_ident)
  also have "rev (takeWhile ?P (rev s)) = replicate (length (takeWhile ?P (rev s))) CHR ''/''"
    using t by (metis rev_replicate)
  finally show ?thesis by (simp add: strip_trailing_slashes_def)
qed

lemma strip_trailing_slashes_last:
  "strip_trailing_slashes s = [] \<or> last (strip_trailing_slashes s) \<noteq> CHR ''/''"
proof (cases "dropWhile (\<lambda>c. c = CHR ''/'') (rev s)")
  case Nil
  then show ?thesis by (simp add: strip_trailing_slashes_def)
next
  case (Cons x xs)
  then have "x \<noteq> CHR ''/''"
    using hd_dropWhile [of "\<lambda>c. c = CHR ''/''" "rev s"] by auto
  with Cons show ?thesis by (simp add: strip_trailing_slashes_def)
qed

text \<open>
  Claim C5. For every environment in which \<open>PROXY_PATH\<close> is set, \<open>HOME_PAGE\<close> is
  \<open>PROXY_PATH\<close> with its trailing slashes removed and \<open>LOGIN_PAGE\<close> is that prefix
  followed by \<open>/login\<close>; when \<open>PROXY_PATH\<close> is empty or unset, \<open>HOME_PAGE\<close> is \<open>/\<close> and
  \<open>LOGIN_PAGE\<close> is \<open>/login\<close>.
\<close>

theorem pages_prefixed_by_proxy_path:
  "(\<forall>p. e ''PROXY_PATH'' = Some p \<and> p \<noteq> [] \<longrightarrow>
       HOME_PAGE e = strip_trailing_slashes p
     \<and> LOGIN_PAGE e = HOME_PAGE e @ ''/login''
     \<and> (\<exists>n. p = HOME_PAGE e @ replicate n CHR ''/'')
     \<and> (HOME_PAGE e = [] \<or> last (HOME_PAGE e) \<noteq> CHR ''/''))
   \<and> (e ''PROXY_PATH'' = None \<or> e ''PROXY_PATH'' = Some [] \<longrightarrow>
       HOME_PAGE e = ''/'' \<and> LOGIN_PAGE e = ''/login'')"
proof (intro conjI allI impI)
  fix p assume h: "e ''PROXY_PATH'' = Some p \<and> p \<noteq> []"
  then have hp: "HOME_PAGE e = strip_trailing_slashes p"
    by (simp add: HOME_PAGE_def PROXY_PATH_def env_set_def)
  show "HOME_PAGE e = strip_trailing_slashes p" by (rule hp)
  show "LOGIN_PAGE e = HOME_PAGE e @ ''/login''"
    using h by (simp add: HOME_PAGE_def LOGIN_PAGE_def env_set_def)
  show "\<exists>n. p = HOME_PAGE e @ replicate n CHR ''/''"
    unfolding hp using strip_trailing_slashes_decomp [of p] by blast
  show "HOME_PAGE e = [] \<or> last (HOME_PAGE e) \<noteq> CHR ''/''"
    unfolding hp by (rule strip_trailing_slashes_last)
next
  assume "e ''PROXY_PATH'' = None \<or> e ''PROXY_PATH'' = Some []"
  then show "HOME_PAGE e = ''/''" "LOGIN_PAGE e = ''/login''"
    by (auto simp add: HOME_PAGE_def LOGIN_PAGE_def env_set_def)
qed

theorem pages_prefixed_by_proxy_path_witness:
  "env_of [(''PROXY_PATH'', ''/custom-path/'')] ''PROXY_PATH'' = Some ''/custom-path/''
   \<and> ''/custom-path/'' \<noteq> []
   \<and> HOME_PAGE (env_of [(''PROXY_PATH'', ''/custom-path/'')]) = ''/custom-path''
   \<and> LOGIN_PAGE (env_of [(''PROXY_PATH'', ''/custom-path/'')]) = ''/custom-path/login''
   \<and> env_of [(''PROXY_PATH'', '''')] ''PROXY_PATH'' = Some []
   \<and> HOME_PAGE (env_of [(''PROXY_PATH'', '''')]) = ''/''
   \<and> LOGIN_PAGE (env_of [(''PROXY_PATH'', '''')]) = ''/login''
   \<and> env_of [] ''PROXY_PATH'' = None
   \<and> HOME_PAGE (env_of []) = ''/''
   \<and> LOGIN_PAGE (env_of []) = ''/login''"
proof -
  have a: "env_of [(''PROXY_PATH'', ''/custom-path/'')] ''PROXY_PATH'' = Some ''/custom-path/''
      \<and> ''/custom-path/'' \<noteq> []"
    by (simp add: env_of_def)
  have b: "env_of [(''PROXY_PATH'', '''')] ''PROXY_PATH'' = None
      \<or> env_of [(''PROXY_PATH'', '''')] ''PROXY_PATH'' = Some []"
    by (simp add: env_of_def)
  have c: "env_of [] ''PROXY_PATH'' = None \<or> env_of [] ''PROXY_PATH'' = Some []"
    by (simp add: env_of_def)
  have s: "strip_trailing_slashes ''/custom-path/'' = ''/custom-path''"
    by (simp add: strip_trailing_slashes_def)
  note t = pages_prefixed_by_proxy_path
  from t [of "env_of [(''PROXY_PATH'', ''/custom-path/'')]", THEN conjunct1, rule_format, OF a]
       t [of "env_of [(''PROXY_PATH'', '''')]", THEN conjunct2, rule_format, OF b]
       t [of "env_of []", THEN conjunct2, rule_format, OF c]
       a s
  show ?thesis by (simp add: env_of_def)
qed

section \<open>Per-queue client options: the prefix key\<close>

lemma nonempty_string_iff: "nonempty_string v \<longleftrightarrow> (\<exists>s. v = JStr s \<and> s \<noteq> [])"
  by (cases v) simp_all

lemma connection_key_not_prefix: "connection_key ver \<noteq> ''prefix''"
  by (cases ver) simp_all

text \<open>
  Claim C6. For both client versions, the options passed to a queue constructor have
  a \<open>prefix\<close> key if and only if the configured queue prefix is a non-empty string,
  and then the key is bound to that prefix; for \<open>undefined\<close>, \<open>null\<close> and the empty
  string there is no \<open>prefix\<close> key.
\<close>

theorem queue_options_prefix_iff_nonempty_string:
  "(has_key (queue_options ver prefix redis) ''prefix'' \<longleftrightarrow> (\<exists>s. prefix = JStr s \<and> s \<noteq> []))
   \<and> (has_key (queue_options ver prefix redis) ''prefix'' \<longrightarrow>
        js_get (queue_options ver prefix redis) ''prefix'' = prefix)
   \<and> \<not> has_key (queue_options ver JUndefined redis) ''prefix''
   \<and> \<not> has_key (queue_options ver JNull redis) ''prefix''
   \<and> \<not> has_key (queue_options ver (JStr []) redis) ''prefix''
   \<and> js_get (queue_options ver prefix redis) (connection_key ver) = redis"
  using connection_key_not_prefix [of ver]
  by (auto simp add: queue_options_def nonempty_string_iff)

theorem queue_options_prefix_iff_nonempty_string_witness:
  "has_key (queue_options BULLMQ (JStr ''test-prefix'') (JObj [])) ''prefix''
   \<and> js_get (queue_options BULLMQ (JStr ''test-prefix'') (JObj [])) ''prefix'' = JStr ''test-prefix''
   \<and> has_key (queue_options BULL (JStr ''test-prefix'') (JObj [])) ''prefix''
   \<and> js_get (queue_options BULL (JStr ''test-prefix'') (JObj [])) ''prefix'' = JStr ''test-prefix''
   \<and> js_get (queue_options BULL (JStr ''test-prefix'') (JObj [])) ''redis'' = JObj []
   \<and> js_get (queue_options BULLMQ (JStr ''test-prefix'') (JObj [])) ''connection'' = JObj []"
proof -
  have e: "\<exists>s. JStr ''test-prefix'' = JStr s \<and> s \<noteq> []" by simp
  from queue_options_prefix_iff_nonempty_string [of BULLMQ "JStr ''test-prefix''" "JObj []"]
       queue_options_prefix_iff_nonempty_string [of BULL "JStr ''test-prefix''" "JObj []"] e
  show ?thesis by simp
qed

section \<open>Queue discovery: the discovered set\<close>

lemma construct_with_backoff_succeeds:
  "\<exists>i<n. attempt name i \<Longrightarrow> construct_with_backoff attempt n name = Inr name"
  by (auto simp add: construct_with_backoff_def find_None_iff split: option.splits)

lemma construct_with_backoff_fails:
  "\<not> (\<exists>i<n. attempt name i) \<Longrightarrow>
     construct_with_backoff attempt n name = Inl (ConstructionFailed name)"
  by (auto simp add: construct_with_backoff_def find_None_iff split: option.splits)

lemma queues_construct_all:
  "queues (construct_all attempt n names) = filter (\<lambda>name. \<exists>i<n. attempt name i) names"
proof (induction names)
  case Nil
  then show ?case by simp
next
  case (Cons name names)
  show ?case
  proof (cases "\<exists>i<n. attempt name i")
    case True
    then show ?thesis
      using Cons construct_with_backoff_succeeds [of n attempt name, OF True] by (simp add: Let_def)
  next
    case False
    then show ?thesis
      using Cons construct_with_backoff_fails [of n attempt name, OF False] by (simp add: Let_def)
  qed
qed

lemma distinct_unique_names: "distinct (unique_names xs)"
  by (simp add: unique_names_def)

lemma bullMain_queues:
  "queues (bullMain attempt n keys)
     = filter (\<lambda>name. \<exists>i<n. attempt name i) (unique_names (map queue_name_of_key keys))"
  by (simp add: bullMain_def Let_def queues_construct_all)

lemma bullMain_queues_distinct: "distinct (queues (bullMain attempt n keys))"
  by (simp add: bullMain_queues distinct_unique_names)

lemma test_keys_names:
  "unique_names (map queue_name_of_key [''bull:queue1:jobs'', ''bull:queue2:jobs''])
     = [''queue1'', ''queue2'']"
  by (simp add: unique_names_def queue_name_of_key_def)

text \<open>
  Claim C7. Discovery over the keys \<open>bull:queue1:jobs\<close> and \<open>bull:queue2:jobs\<close>, with
  constructions that succeed within the attempt budget, builds exactly the two
  distinct queue clients \<open>queue1\<close> and \<open>queue2\<close> and logs nothing; discovery over no
  keys ends with an empty queue set and one logged error. The queue clients of any
  discovery are pairwise distinct.
\<close>

theorem bullMain_discovers_two_queues_or_none:
  "((\<exists>i<n. attempt ''queue1'' i) \<and> (\<exists>i<n. attempt ''queue2'' i) \<longrightarrow>
       bullMain attempt n [''bull:queue1:jobs'', ''bull:queue2:jobs'']
         = \<lparr> queues = [''queue1'', ''queue2''], logged_errors = [] \<rparr>)
   \<and> bullMain attempt n [] = \<lparr> queues = [], logged_errors = [NoQueueFound] \<rparr>
   \<and> distinct (queues (bullMain attempt n keys))"
proof (intro conjI impI)
  assume a: "(\<exists>i<n. attempt ''queue1'' i) \<and> (\<exists>i<n. attempt ''queue2'' i)"
  then have "construct_with_backoff attempt n ''queue1'' = Inr ''queue1''"
    and "construct_with_backoff attempt n ''queue2'' = Inr ''queue2''"
    by (simp_all add: construct_with_backoff_succeeds)
  then show "bullMain attempt n [''bull:queue1:jobs'', ''bull:queue2:jobs'']
         = \<lparr> queues = [''queue1'', ''queue2''], logged_errors = [] \<rparr>"
    unfolding bullMain_def test_keys_names by (simp add: Let_def)
next
  show "bullMain attempt n [] = \<lparr> queues = [], logged_errors = [NoQueueFound] \<rparr>"
    by (simp add: bullMain_def unique_names_def)
next
  show "distinct (queues (bullMain attempt n keys))"
    by (rule bullMain_queues_distinct)
qed

theorem bullMain_discovers_two_queues_or_none_witness:
  "(\<exists>i<10. always_succeeds ''queue1'' i) \<and> (\<exists>i<10. always_succeeds ''queue2'' i)
   \<and> bullMain always_succeeds 10 [''bull:queue1:jobs'', ''bull:queue2:jobs'']
         = \<lparr> queues = [''queue1'', ''queue2''], logged_errors = [] \<rparr>
   \<and> bullMain always_succeeds 10 [] = \<lparr> queues = [], logged_errors = [NoQueueFound] \<rparr>"
proof -
  have "always_succeeds ''queue1'' 0 \<and> always_succeeds ''queue2'' 0"
    by (simp add: always_succeeds_def)
  then have a: "(\<exists>i<10. always_succeeds ''queue1'' i) \<and> (\<exists>i<10. always_succeeds ''queue2'' i)"
    by (meson zero_less_numeral)
  note t = bullMain_discovers_two_queues_or_none [of 10 always_succeeds]
  from t [THEN conjunct1, rule_format, OF a] t [THEN conjunct2, THEN conjunct1] a
  show ?thesis by simp
qed

section \<open>Login: the verification outcome\<close>

text \<open>
  Claim C8. For every presented username and password, the verification callback is
  called with \<open>(null, {user: 'bull-board'})\<close> when the pair equals the configured login
  and password and with \<open>(null, false)\<close> otherwise; its first argument is always
  \<open>null\<close>, never an error.
\<close>

theorem verify_credentials_never_errors:
  "(JStr username = cfg ''USER_LOGIN'' \<and> JStr password = cfg ''USER_PASSWORD'' \<longrightarrow>
      verify_credentials cfg username password = (JNull, JObj [(''user'', JStr ''bull-board'')]))
   \<and> (\<not> (JStr username = cfg ''USER_LOGIN'' \<and> JStr password = cfg ''USER_PASSWORD'') \<longrightarrow>
      verify_credentials cfg username password = (JNull, JBool False))
   \<and> fst (verify_credentials cfg username password) = JNull"
  by (simp add: verify_credentials_def fixed_user_def)

theorem verify_credentials_never_errors_witness:
  "JStr ''admin'' = config_of [(''USER_LOGIN'', JStr ''admin''), (''USER_PASSWORD'', JStr ''password'')] ''USER_LOGIN''
   \<and> JStr ''password'' = config_of [(''USER_LOGIN'', JStr ''admin''), (''USER_PASSWORD'', JStr ''password'')] ''USER_PASSWORD''
   \<and> verify_credentials
        (config_of [(''USER_LOGIN'', JStr ''admin''), (''USER_PASSWORD'', JStr ''password'')])
        ''admin'' ''password'' = (JNull, JObj [(''user'', JStr ''bull-board'')])
   \<and> verify_credentials
        (config_of [(''USER_LOGIN'', JStr ''admin''), (''USER_PASSWORD'', JStr ''password'')])
        ''wrong'' ''password'' = (JNull, JBool False)
   \<and> verify_credentials
        (config_of [(''USER_LOGIN'', JStr ''admin''), (''USER_PASSWORD'', JStr ''password'')])
        ''admin'' ''wrong'' = (JNull, JBool False)"
proof -
  let ?cfg = "config_of [(''USER_LOGIN'', JStr ''admin''), (''USER_PASSWORD'', JStr ''password'')]"
  have v: "?cfg ''USER_LOGIN'' = JStr ''admin''" "?cfg ''USER_PASSWORD'' = JStr ''password''"
    by (simp_all add: config_of_def)
  from verify_credentials_never_errors [of "''admin''" ?cfg "''password''"]
       verify_credentials_never_errors [of "''wrong''" ?cfg "''password''"]
       verify_credentials_never_errors [of "''admin''" ?cfg "''wrong''"] v
  show ?thesis by simp
qed

end
